theory Spec2Isabelle
  imports Main
begin

section \<open>Strings\<close>

text \<open>
  The chat client (\<open>auth-ui.js\<close>, class \<open>AuthUI\<close>) works on JavaScript strings.
  They are modelled as \<open>string\<close>, whose characters are the code units U+0000 to U+00FF;
  every string function below is the JavaScript one restricted to that range.
\<close>

text \<open>\<open>String.prototype.toLowerCase\<close> on the strings of the model: A to Z and the Latin-1
  capitals U+00C0 to U+00DE (the multiplication sign U+00D7 apart) move up by 32, every other
  character stays. Beyond U+00FF the JavaScript function depends on the context of a
  character and can change the length of a string, so it is not a map over characters;
  the search below (\<open>handleSearchWith\<close>) therefore takes the lower-casing function as a
  parameter, and this definition serves to run the client on concrete strings.\<close>

definition toLowerChar :: "char \<Rightarrow> char" where
  "toLowerChar c =
     (let n = (of_char c :: nat) in
      if 65 \<le> n \<and> n \<le> 90 then char_of (n + 32)
      else if n = 215 then c
      else if 192 \<le> n \<and> n \<le> 222 then char_of (n + 32)
      else c)"

definition toLowerCase :: "string \<Rightarrow> string" where
  "toLowerCase t = map toLowerChar t"

text \<open>White space and line terminators of ECMAScript in the range: TAB, LF, VT, FF, CR,
  SPACE and the no-break space U+00A0.\<close>

definition isWhiteSpace :: "char \<Rightarrow> bool" where
  "isWhiteSpace c =
     (let n = (of_char c :: nat) in (9 \<le> n \<and> n \<le> 13) \<or> n = 32 \<or> n = 160)"

text \<open>\<open>String.prototype.trim\<close>: white space is removed at both ends.\<close>

definition trim :: "string \<Rightarrow> string" where
  "trim t = rev (dropWhile isWhiteSpace (rev (dropWhile isWhiteSpace t)))"

fun startsWith :: "string \<Rightarrow> string \<Rightarrow> bool" where
  "startsWith s [] = True"
| "startsWith [] (c # t) = False"
| "startsWith (d # s) (c # t) = (d = c \<and> startsWith s t)"

text \<open>\<open>s.includes(t)\<close>: \<open>t\<close> occurs in \<open>s\<close> at some position.\<close>

fun includes_str :: "string \<Rightarrow> string \<Rightarrow> bool" where
  "includes_str [] t = startsWith [] t"
| "includes_str (d # s) t = (startsWith (d # s) t \<or> includes_str s t)"

text \<open>\<open>email.split('@')[0]\<close>: the part before the first \<open>@\<close> (the whole string when
  there is none).\<close>

definition splitAt0 :: "string \<Rightarrow> string" where
  "splitAt0 e = takeWhile (\<lambda>c. c \<noteq> CHR ''@'') e"

text \<open>\<open>escapeHtml\<close> (lines 536 to 540) sets the text as \<open>textContent\<close> of a fresh
  \<open>div\<close> and reads \<open>innerHTML\<close> back: the HTML serialisation of a text node, which
  replaces \<open>&\<close>, the no-break space, \<open><\<close> and \<open>>\<close>.\<close>

definition escapeChar :: "char \<Rightarrow> string" where
  "escapeChar c =
     (if c = CHR ''&'' then ''&amp;''
      else if c = CHR 0xA0 then ''&nbsp;''
      else if c = CHR ''<'' then ''&lt;''
      else if c = CHR ''>'' then ''&gt;''
      else [c])"

definition escapeHtml :: "string \<Rightarrow> string" where
  "escapeHtml t = concat (map escapeChar t)"

text \<open>\<open>encodeURIComponent\<close>: letters, digits and \<open>-_.!~*'()\<close> stay; any other character
  is written as the percent-escaped bytes of its UTF-8 encoding (one byte below U+0080,
  two bytes from there to U+00FF).\<close>

definition hexDigit :: "nat \<Rightarrow> char" where
  "hexDigit d = (if d < 10 then char_of (48 + d) else char_of (55 + d))"

definition percentByte :: "nat \<Rightarrow> string" where
  "percentByte b = [CHR ''%'', hexDigit (b div 16), hexDigit (b mod 16)]"

definition isUnreserved :: "char \<Rightarrow> bool" where
  "isUnreserved c =
     (let n = (of_char c :: nat) in
      (65 \<le> n \<and> n \<le> 90) \<or> (97 \<le> n \<and> n \<le> 122) \<or> (48 \<le> n \<and> n \<le> 57)
      \<or> c \<in> set ''-_.!~*()'' \<or> n = 39)"

definition encodeChar :: "char \<Rightarrow> string" where
  "encodeChar c =
     (let n = (of_char c :: nat) in
      if isUnreserved c then [c]
      else if n < 128 then percentByte n
      else percentByte (192 + n div 64) @ percentByte (128 + n mod 64))"

definition encodeURIComponent :: "string \<Rightarrow> string" where
  "encodeURIComponent t = concat (map encodeChar t)"

section \<open>Data\<close>

text \<open>The signed-in user of Firebase Auth, as far as the client reads it. A \<open>null\<close>
  \<open>displayName\<close> or \<open>photoURL\<close> is \<open>None\<close>.\<close>

record user =
  u_uid :: string
  u_email :: string
  u_displayName :: "string option"
  u_photoURL :: "string option"

text \<open>A document of the \<open>messages\<close> collection, with the fields \<open>sendMessage\<close> writes.
  The timestamp is \<open>None\<close> while the server has not resolved \<open>serverTimestamp()\<close>
  (the document then reads \<open>null\<close>).\<close>

record message =
  m_text :: string
  m_userId :: string
  m_displayName :: string
  m_email :: string
  m_channel :: string
  m_timestamp :: "nat option"
  m_avatar :: string

text \<open>A document of the \<open>users\<close> collection, as \<open>createUserDocument\<close> writes it.\<close>

record userDoc =
  d_uid :: string
  d_email :: string
  d_displayName :: string
  d_status :: string
  d_avatar :: string

text \<open>What a listener is registered for: the query on \<open>messages\<close> filtered by channel
  and ordered by timestamp, or the query on \<open>users\<close> with status \<open>online\<close>.\<close>

datatype topic = ChannelMessages string | Presence

fun isMessageTopic :: "topic \<Rightarrow> bool" where
  "isMessageTopic (ChannelMessages c) = True"
| "isMessageTopic Presence = False"

fun isPresenceTopic :: "topic \<Rightarrow> bool" where
  "isPresenceTopic (ChannelMessages c) = False"
| "isPresenceTopic Presence = True"

text \<open>The calls the client makes on the remote store, in the order it makes them:
  \<open>onSnapshot\<close> (which returns the listener's handle), the handle's cancellation and
  \<open>addDoc\<close> on \<open>messages\<close>.\<close>

datatype call = Subscribe nat topic | Cancel nat | AddDoc message

text \<open>How a time is written into the markup: the fixed texts, or the locale's rendering
  of a timestamp (hour and minute in the message list, the full time in the search list).\<close>

datatype timeText = JustNow | HourMinute nat | UnknownTime | LocaleTime nat

text \<open>The elements the client builds. Each constructor is one template of the source and
  each argument the string the template interpolates at that place.
  \<^item> \<open>NoResults t\<close>: \<open><div class="no-results">t</div>\<close>;
  \<^item> \<open>MessageDiv cls src alt sender text time\<close>: the \<open>div\<close> of \<open>displayMessage\<close>;
  \<^item> \<open>PersonItem src alt name email\<close>: the \<open>li\<close> of \<open>loadOnlineUsers\<close>;
  \<^item> \<open>SearchResultItem sender text time\<close>: the \<open>div\<close> of \<open>handleSearch\<close>.\<close>

datatype node =
    NoResults string
  | MessageDiv string string string string string timeText
  | PersonItem string string string string
  | SearchResultItem string string timeText

datatype error = TypeError

text \<open>The fields of \<open>AuthUI\<close>, the content of the DOM elements it writes, and the remote
  store as the client sees it: the listeners not yet cancelled (handle and topic), the
  next handle \<open>onSnapshot\<close> will return, and the calls made so far.\<close>

record state =
  currentUser :: "user option"
  currentChannel :: string
  messageListener :: "nat option"
  allMessages :: "message list"
  onlineUsers :: "string set"
  messagesContainer :: "node list"
  peopleList :: "node list"
  searchResults :: "node list"
  messageInput :: string
  messageInputDisabled :: bool
  searchModalInput :: string
  authModalActive :: bool
  alerts :: "string list"
  listeners :: "(nat \<times> topic) list"
  nextHandle :: nat
  calls :: "call list"

text \<open>The constructor (lines 21 to 30); the elements start empty.\<close>

definition initial :: state where
  "initial =
     \<lparr> currentUser = None, currentChannel = ''ideas'', messageListener = None,
       allMessages = [], onlineUsers = {}, messagesContainer = [], peopleList = [],
       searchResults = [], messageInput = [], messageInputDisabled = True,
       searchModalInput = [], authModalActive = False, alerts = [], listeners = [],
       nextHandle = 0, calls = [] \<rparr>"

section \<open>The remote store\<close>

text \<open>\<open>onSnapshot(q, callback)\<close> registers a listener and returns the function that
  cancels it; the model returns the listener's handle. The store calls a callback only
  while its listener is registered, so a snapshot for a cancelled handle is dropped before
  it reaches the client (see \<open>deliverMessages\<close> and \<open>deliverPresence\<close>).\<close>

definition onSnapshot :: "topic \<Rightarrow> state \<Rightarrow> nat \<times> state" where
  "onSnapshot t s =
     (nextHandle s,
      s\<lparr> listeners := listeners s @ [(nextHandle s, t)],
         nextHandle := Suc (nextHandle s),
         calls := calls s @ [Subscribe (nextHandle s) t] \<rparr>)"

text \<open>Calling the function \<open>onSnapshot\<close> returned.\<close>

definition unsubscribe :: "nat \<Rightarrow> state \<Rightarrow> state" where
  "unsubscribe h s =
     s\<lparr> listeners := filter (\<lambda>l. fst l \<noteq> h) (listeners s),
        calls := calls s @ [Cancel h] \<rparr>"

text \<open>The handles of the registered listeners of the two kinds.\<close>

definition messageHandles :: "state \<Rightarrow> nat list" where
  "messageHandles s = map fst (filter (\<lambda>l. isMessageTopic (snd l)) (listeners s))"

definition presenceHandles :: "state \<Rightarrow> nat list" where
  "presenceHandles s = map fst (filter (\<lambda>l. isPresenceTopic (snd l)) (listeners s))"

section \<open>The operations of AuthUI\<close>

text \<open>The JavaScript \<open>a || b\<close> on a string that may be \<open>null\<close>: \<open>null\<close> and the empty
  string are falsy.\<close>

definition orElse :: "string option \<Rightarrow> string \<Rightarrow> string" where
  "orElse a b = (case a of None \<Rightarrow> b | Some x \<Rightarrow> if x = [] then b else x)"

text \<open>\<open>clearMessageListener\<close> (lines 489 to 494).\<close>

definition clearMessageListener :: "state \<Rightarrow> state" where
  "clearMessageListener s =
     (case messageListener s of
        None \<Rightarrow> s
      | Some h \<Rightarrow> (unsubscribe h s)\<lparr> messageListener := None \<rparr>)"

text \<open>\<open>displayMessage\<close> (lines 324 to 351): the element appended to the message list.\<close>

definition messageDiv :: "user option \<Rightarrow> message \<Rightarrow> node" where
  "messageDiv cu m =
     MessageDiv
       (''message '' @
          (case cu of
             None \<Rightarrow> ''received''
           | Some u \<Rightarrow> if m_userId m = u_uid u then ''sent'' else ''received''))
       (if m_avatar m = [] then ''img/good.png'' else m_avatar m)
       (m_displayName m)
       (m_displayName m)
       (escapeHtml (m_text m))
       (case m_timestamp m of None \<Rightarrow> JustNow | Some t \<Rightarrow> HourMinute t)"

definition displayMessage :: "message \<Rightarrow> state \<Rightarrow> state" where
  "displayMessage m s =
     s\<lparr> messagesContainer := messagesContainer s @ [messageDiv (currentUser s) m] \<rparr>"

text \<open>The callback \<open>loadMessages\<close> passes to \<open>onSnapshot\<close> (lines 304 to 321), called
  with the documents of the snapshot in the order the snapshot has them.\<close>

definition messagesCallback :: "message list \<Rightarrow> state \<Rightarrow> state" where
  "messagesCallback docs s =
     (let s1 = s\<lparr> messagesContainer := [], allMessages := [] \<rparr> in
      if docs = [] then
        s1\<lparr> messagesContainer := [NoResults ''No messages yet. Start the conversation!''] \<rparr>
      else
        foldl (\<lambda>s2 m. (displayMessage m s2)\<lparr> allMessages := allMessages s2 @ [m] \<rparr>) s1 docs)"

text \<open>\<open>loadMessages\<close> (lines 291 to 322).\<close>

definition loadMessages :: "state \<Rightarrow> state" where
  "loadMessages s =
     (case currentUser s of
        None \<Rightarrow> s
      | Some u \<Rightarrow>
          (let s1 = clearMessageListener s;
               (h, s2) = onSnapshot (ChannelMessages (currentChannel s1)) s1
           in s2\<lparr> messageListener := Some h \<rparr>))"

text \<open>The store delivers a snapshot of the \<open>messages\<close> query to the listener \<open>h\<close>.\<close>

definition deliverMessages :: "nat \<Rightarrow> message list \<Rightarrow> state \<Rightarrow> state" where
  "deliverMessages h docs s =
     (case map_of (listeners s) h of
        Some (ChannelMessages c) \<Rightarrow> messagesCallback docs s
      | Some Presence \<Rightarrow> s
      | None \<Rightarrow> s)"

text \<open>The callback of \<open>loadOnlineUsers\<close> (lines 414 to 447). The comparison with
  \<open>this.currentUser.uid\<close> throws a \<open>TypeError\<close> at the first document when nobody is
  signed in; the list and the set are cleared by then.\<close>

definition personItem :: "userDoc \<Rightarrow> node" where
  "personItem d =
     PersonItem (if d_avatar d = [] then ''img/good.png'' else d_avatar d)
       (d_displayName d) (d_displayName d) (d_email d)"

definition addPerson :: "user \<Rightarrow> state \<Rightarrow> userDoc \<Rightarrow> state" where
  "addPerson u s d =
     (if d_uid d = u_uid u then s
      else s\<lparr> onlineUsers := insert (d_uid d) (onlineUsers s),
              peopleList := peopleList s @ [personItem d] \<rparr>)"

definition presenceCallback :: "userDoc list \<Rightarrow> state \<Rightarrow> state \<times> error option" where
  "presenceCallback docs s =
     (let s1 = s\<lparr> peopleList := [], onlineUsers := {} \<rparr> in
      if docs = [] then (s1\<lparr> peopleList := [NoResults ''No users online''] \<rparr>, None)
      else
        (case currentUser s1 of
           None \<Rightarrow> (s1, Some TypeError)
         | Some u \<Rightarrow> (foldl (addPerson u) s1 docs, None)))"

text \<open>\<open>loadOnlineUsers\<close> (lines 408 to 448): the function \<open>onSnapshot\<close> returns is
  dropped.\<close>

definition loadOnlineUsers :: "state \<Rightarrow> state" where
  "loadOnlineUsers s =
     (case currentUser s of
        None \<Rightarrow> s
      | Some u \<Rightarrow> snd (onSnapshot Presence s))"

definition deliverPresence :: "nat \<Rightarrow> userDoc list \<Rightarrow> state \<Rightarrow> state \<times> error option" where
  "deliverPresence h docs s =
     (case map_of (listeners s) h of
        Some Presence \<Rightarrow> presenceCallback docs s
      | Some (ChannelMessages c) \<Rightarrow> (s, None)
      | None \<Rightarrow> (s, None))"

text \<open>\<open>showChatInterface\<close> and \<open>showAuthInterface\<close> (lines 222 to 271), without the
  labels, colours and button classes they set.\<close>

definition showChatInterface :: "user \<Rightarrow> state \<Rightarrow> state" where
  "showChatInterface u s =
     s\<lparr> authModalActive := False, messageInputDisabled := False, messagesContainer := [] \<rparr>"

definition showAuthInterface :: "state \<Rightarrow> state" where
  "showAuthInterface s =
     s\<lparr> messageInputDisabled := True,
        messagesContainer := [NoResults ''Sign in to join the conversation!''] \<rparr>"

text \<open>The callback of \<open>onAuthStateChanged\<close> (lines 205 to 219). \<open>updateUserStatus\<close> only
  reads the store and logs, so it leaves the state as it is.\<close>

definition authStateChanged :: "user option \<Rightarrow> state \<Rightarrow> state" where
  "authStateChanged usr s =
     (case usr of
        Some u \<Rightarrow>
          loadOnlineUsers (loadMessages (showChatInterface u (s\<lparr> currentUser := Some u \<rparr>)))
      | None \<Rightarrow>
          clearMessageListener (showAuthInterface (s\<lparr> currentUser := None \<rparr>)))"

text \<open>\<open>sendMessage\<close> (lines 353 to 376). The record is built and handed to \<open>addDoc\<close>
  before the function suspends; \<open>sendMessageSettled\<close> is what runs once \<open>addDoc\<close> has
  resolved (\<open>True\<close>) or rejected (\<open>False\<close>).\<close>

definition newMessage :: "user \<Rightarrow> string \<Rightarrow> string \<Rightarrow> message" where
  "newMessage u ch messageText =
     \<lparr> m_text = messageText,
       m_userId = u_uid u,
       m_displayName = orElse (u_displayName u) (splitAt0 (u_email u)),
       m_email = u_email u,
       m_channel = ch,
       m_timestamp = None,
       m_avatar =
         orElse (u_photoURL u)
           (''https://ui-avatars.com/api/?name=''
              @ encodeURIComponent (orElse (u_displayName u) (u_email u))
              @ ''&background=ec4899&color=fff'') \<rparr>"

definition sendMessage :: "state \<Rightarrow> state" where
  "sendMessage s =
     (case currentUser s of
        None \<Rightarrow> s
      | Some u \<Rightarrow>
          if trim (messageInput s) = [] then s
          else s\<lparr> calls :=
                 calls s @ [AddDoc (newMessage u (currentChannel s) (trim (messageInput s)))] \<rparr>)"

definition sendMessageSettled :: "bool \<Rightarrow> state \<Rightarrow> state" where
  "sendMessageSettled ok s =
     (if ok then s\<lparr> messageInput := [] \<rparr>
      else s\<lparr> alerts := alerts s @ [''Failed to send message. Please try again.''] \<rparr>)"

text \<open>\<open>switchChannel\<close> (lines 378 to 406) for the item whose \<open>data-channel\<close> is
  \<open>channelId\<close>, without the title, the description and the \<open>active\<close> class it sets.\<close>

definition openAuthModal :: "state \<Rightarrow> state" where
  "openAuthModal s = s\<lparr> authModalActive := True \<rparr>"

definition switchChannel :: "string \<Rightarrow> state \<Rightarrow> state" where
  "switchChannel channelId s =
     (case currentUser s of
        None \<Rightarrow> openAuthModal s
      | Some u \<Rightarrow> loadMessages (s\<lparr> currentChannel := channelId \<rparr>))"

text \<open>\<open>handleSearch\<close> (lines 459 to 487). \<open>String.prototype.toLowerCase\<close> belongs to the
  platform, not to the repository: \<open>handleSearchWith\<close> is the function of the source with
  the lower-casing function as its parameter \<open>lower\<close>, and \<open>handleSearch\<close> is its instance
  for the strings of the model.\<close>

definition searchMatches :: "(string \<Rightarrow> string) \<Rightarrow> string \<Rightarrow> message \<Rightarrow> bool" where
  "searchMatches lower searchTerm m =
     (includes_str (lower (m_text m)) searchTerm
      \<or> includes_str (lower (m_displayName m)) searchTerm)"

definition searchResultItem :: "message \<Rightarrow> node" where
  "searchResultItem m =
     SearchResultItem (m_displayName m) (m_text m)
       (case m_timestamp m of None \<Rightarrow> UnknownTime | Some t \<Rightarrow> LocaleTime t)"

definition handleSearchWith :: "(string \<Rightarrow> string) \<Rightarrow> state \<Rightarrow> state" where
  "handleSearchWith lower s =
     (let searchTerm = trim (lower (searchModalInput s)) in
      if searchTerm = [] then
        s\<lparr> searchResults := [NoResults ''Enter a search term to find messages''] \<rparr>
      else
        (let filteredMessages = filter (searchMatches lower searchTerm) (allMessages s) in
         if filteredMessages = [] then
           s\<lparr> searchResults := [NoResults ''No messages found matching your search''] \<rparr>
         else
           s\<lparr> searchResults := map searchResultItem filteredMessages \<rparr>))"

definition handleSearch :: "state \<Rightarrow> state" where
  "handleSearch s = handleSearchWith toLowerCase s"

section \<open>Runs of the client\<close>

text \<open>What can happen to the client: the auth service reports a user or none, the store
  delivers a snapshot to a listener, the user clicks a channel, types into the message
  field or the search field, presses send, and a pending \<open>addDoc\<close> settles.\<close>

datatype event =
    AuthStateChanged "user option"
  | MessagesSnapshot nat "message list"
  | PresenceSnapshot nat "userDoc list"
  | ClickChannel string
  | InputMessage string
  | ClickSend
  | SendSettled bool
  | InputSearch string

text \<open>An error thrown inside a snapshot callback is not caught by the client: the state
  stays as the callback left it, and the run goes on.\<close>

fun step :: "event \<Rightarrow> state \<Rightarrow> state" where
  "step (AuthStateChanged usr) s = authStateChanged usr s"
| "step (MessagesSnapshot h docs) s = deliverMessages h docs s"
| "step (PresenceSnapshot h docs) s = fst (deliverPresence h docs s)"
| "step (ClickChannel c) s = switchChannel c s"
| "step (InputMessage t) s = s\<lparr> messageInput := t \<rparr>"
| "step ClickSend s = sendMessage s"
| "step (SendSettled ok) s = sendMessageSettled ok s"
| "step (InputSearch t) s = handleSearch (s\<lparr> searchModalInput := t \<rparr>)"

fun run :: "event list \<Rightarrow> state \<Rightarrow> state" where
  "run [] s = s"
| "run (e # es) s = run es (step e s)"

text \<open>The invariants of every run: handles are handed out once; the registered listeners
  on \<open>messages\<close> are exactly the one \<open>messageListener\<close> holds, registered for the
  current channel; and there is such a listener exactly while a user is signed in.\<close>

definition fresh :: "state \<Rightarrow> bool" where
  "fresh s =
     (list_all (\<lambda>l. fst l < nextHandle s) (listeners s) \<and> distinct (map fst (listeners s)))"

definition tracked :: "state \<Rightarrow> bool" where
  "tracked s =
     (filter (\<lambda>l. isMessageTopic (snd l)) (listeners s) =
        (case messageListener s of
           None \<Rightarrow> []
         | Some h \<Rightarrow> [(h, ChannelMessages (currentChannel s))]))"

definition bound :: "state \<Rightarrow> bool" where
  "bound s = ((currentUser s = None) = (messageListener s = None))"

definition invariant :: "state \<Rightarrow> bool" where
  "invariant s = (fresh s \<and> tracked s \<and> bound s)"

text \<open>Example data.\<close>

definition alice :: user where
  "alice = \<lparr> u_uid = ''u1'', u_email = ''alice@example.org'',
             u_displayName = Some ''Alice'', u_photoURL = None \<rparr>"

definition msgAt :: "string \<Rightarrow> string \<Rightarrow> nat \<Rightarrow> message" where
  "msgAt author txt t =
     \<lparr> m_text = txt, m_userId = author, m_displayName = author, m_email = [],
       m_channel = ''ideas'', m_timestamp = Some t, m_avatar = [] \<rparr>"

definition onlineDoc :: "string \<Rightarrow> userDoc" where
  "onlineDoc i =
     \<lparr> d_uid = i, d_email = [], d_displayName = i, d_status = ''online'', d_avatar = [] \<rparr>"

text \<open>A list of messages is chronological when no message stands before one with an
  earlier timestamp; a message without a timestamp is not compared.\<close>

definition notAfter :: "message \<Rightarrow> message \<Rightarrow> bool" where
  "notAfter a b =
     (case m_timestamp a of
        None \<Rightarrow> True
      | Some x \<Rightarrow> (case m_timestamp b of None \<Rightarrow> True | Some y \<Rightarrow> x \<le> y))"

definition chronological :: "message list \<Rightarrow> bool" where
  "chronological ms = sorted_wrt notAfter ms"

text \<open>The search of the specification. A string contains another as a substring when it
  is that string between a prefix and a suffix. A text contains a term case-insensitively
  when the lower-cased text contains the lower-cased term; \<open>specMatches\<close> is the match of
  the specification for the term as it is typed, \<open>trimmedMatches\<close> the match for the
  lower-cased term without the white space at its ends.\<close>

definition contains :: "string \<Rightarrow> string \<Rightarrow> bool" where
  "contains t u = (\<exists>p q. t = p @ u @ q)"

definition specMatches :: "(string \<Rightarrow> string) \<Rightarrow> string \<Rightarrow> message \<Rightarrow> bool" where
  "specMatches lower term m =
     (contains (lower (m_text m)) (lower term)
      \<or> contains (lower (m_displayName m)) (lower term))"

definition trimmedMatches :: "(string \<Rightarrow> string) \<Rightarrow> string \<Rightarrow> message \<Rightarrow> bool" where
  "trimmedMatches lower term m =
     (contains (lower (m_text m)) (trim (lower term))
      \<or> contains (lower (m_displayName m)) (trim (lower term)))"

section \<open>Snapshots and invariants\<close>

lemma messages_fold:
  "foldl (\<lambda>s2 m. (displayMessage m s2)\<lparr> allMessages := allMessages s2 @ [m] \<rparr>) s docs =
     s\<lparr> messagesContainer := messagesContainer s @ map (messageDiv (currentUser s)) docs,
        allMessages := allMessages s @ docs \<rparr>"
  by (induction docs arbitrary: s) (simp_all add: displayMessage_def)

lemma messagesCallback_eq:
  "messagesCallback docs s =
     s\<lparr> messagesContainer :=
          (if docs = [] then [NoResults ''No messages yet. Start the conversation!'']
           else map (messageDiv (currentUser s)) docs),
        allMessages := docs \<rparr>"
  by (simp add: messagesCallback_def messages_fold)

lemma presence_fold:
  "foldl (addPerson u) s docs =
     s\<lparr> onlineUsers := onlineUsers s \<union> (d_uid ` set docs - {u_uid u}),
        peopleList := peopleList s @ map personItem (filter (\<lambda>d. d_uid d \<noteq> u_uid u) docs) \<rparr>"
proof (induction docs arbitrary: s)
  case Nil
  show ?case by simp
next
  case (Cons d ds)
  have "foldl (addPerson u) s (d # ds) = foldl (addPerson u) (addPerson u s d) ds"
    by simp
  also have "\<dots> = (addPerson u s d)
      \<lparr> onlineUsers := onlineUsers (addPerson u s d) \<union> (d_uid ` set ds - {u_uid u}),
        peopleList := peopleList (addPerson u s d)
          @ map personItem (filter (\<lambda>d. d_uid d \<noteq> u_uid u) ds) \<rparr>"
    by (rule Cons.IH)
  also have "\<dots> = s
      \<lparr> onlineUsers := onlineUsers s \<union> (d_uid ` set (d # ds) - {u_uid u}),
        peopleList := peopleList s
          @ map personItem (filter (\<lambda>d. d_uid d \<noteq> u_uid u) (d # ds)) \<rparr>"
    by (cases "d_uid d = u_uid u") (simp_all add: addPerson_def insert_Diff_if)
  finally show ?case .
qed

lemma presenceCallback_frame:
  "listeners (fst (presenceCallback docs s)) = listeners s
   \<and> nextHandle (fst (presenceCallback docs s)) = nextHandle s
   \<and> messageListener (fst (presenceCallback docs s)) = messageListener s
   \<and> currentUser (fst (presenceCallback docs s)) = currentUser s
   \<and> currentChannel (fst (presenceCallback docs s)) = currentChannel s"
  by (simp add: presenceCallback_def presence_fold Let_def split: option.split)

lemma invariant_frame:
  "listeners s' = listeners s \<Longrightarrow> nextHandle s' = nextHandle s \<Longrightarrow>
   messageListener s' = messageListener s \<Longrightarrow> currentUser s' = currentUser s \<Longrightarrow>
   currentChannel s' = currentChannel s \<Longrightarrow> invariant s \<Longrightarrow> invariant s'"
  by (simp add: invariant_def fresh_def tracked_def bound_def split: option.splits)

lemma invariant_initial: "invariant initial"
  by (simp add: invariant_def fresh_def tracked_def bound_def initial_def)

lemma cleared_filter:
  assumes "filter (\<lambda>l. isMessageTopic (snd l)) ls = [(h, t)]"
  shows "filter (\<lambda>l. fst l \<noteq> h \<and> isMessageTopic (snd l)) ls = []"
proof -
  have "filter (\<lambda>l. fst l \<noteq> h \<and> isMessageTopic (snd l)) ls
        = filter (\<lambda>l. fst l \<noteq> h) (filter (\<lambda>l. isMessageTopic (snd l)) ls)"
    by (simp add: conj_commute)
  then show ?thesis using assms by simp
qed

lemma fresh_cleared:
  "fresh s \<Longrightarrow>
   fresh (s\<lparr> listeners := filter (\<lambda>l. fst l \<noteq> h) (listeners s), calls := cs,
             messageListener := ml \<rparr>)"
  by (auto simp: fresh_def list_all_iff distinct_map_filter)

lemma invariant_subscribed:
  assumes "fresh s" and "filter (\<lambda>l. isMessageTopic (snd l)) (listeners s) = []"
    and "currentUser s = Some u"
  shows "invariant ((snd (onSnapshot (ChannelMessages (currentChannel s)) s))
           \<lparr> messageListener := Some (nextHandle s) \<rparr>)"
  using assms
  by (fastforce simp: invariant_def fresh_def tracked_def bound_def onSnapshot_def list_all_iff)

lemma invariant_loadMessages:
  assumes "fresh s" and "filter (\<lambda>l. isMessageTopic (snd l)) (listeners s) =
        (case messageListener s of None \<Rightarrow> [] | Some h \<Rightarrow> [(h, t)])"
    and "currentUser s = Some u"
  shows "invariant (loadMessages s)"
proof (cases "messageListener s")
  case None
  then have "clearMessageListener s = s" by (simp add: clearMessageListener_def)
  then show ?thesis
    using assms None invariant_subscribed [of s u]
    by (simp add: loadMessages_def onSnapshot_def)
next
  case (Some h)
  let ?s1 = "clearMessageListener s"
  have s1: "?s1 = s\<lparr> listeners := filter (\<lambda>l. fst l \<noteq> h) (listeners s),
                      calls := calls s @ [Cancel h], messageListener := None \<rparr>"
    using Some by (simp add: clearMessageListener_def unsubscribe_def)
  have "fresh ?s1" unfolding s1 using assms(1) by (rule fresh_cleared)
  moreover have "filter (\<lambda>l. isMessageTopic (snd l)) (listeners ?s1) = []"
    using assms(2) Some by (simp add: s1 cleared_filter)
  moreover have "currentUser ?s1 = Some u" using assms(3) by (simp add: s1)
  ultimately have "invariant ((snd (onSnapshot (ChannelMessages (currentChannel ?s1)) ?s1))
           \<lparr> messageListener := Some (nextHandle ?s1) \<rparr>)"
    by (rule invariant_subscribed)
  then show ?thesis
    using assms(3) by (simp add: loadMessages_def onSnapshot_def Let_def)
qed

lemma invariant_loadOnlineUsers: "invariant s \<Longrightarrow> invariant (loadOnlineUsers s)"
  by (fastforce simp: loadOnlineUsers_def invariant_def fresh_def tracked_def bound_def
      onSnapshot_def list_all_iff split: option.splits)

lemma invariant_authStateChanged: "invariant s \<Longrightarrow> invariant (authStateChanged usr s)"
proof (cases usr)
  case None
  assume inv: "invariant s"
  show ?thesis
  proof (cases "messageListener s")
    case N: None
    then show ?thesis using inv None
      by (simp add: authStateChanged_def showAuthInterface_def clearMessageListener_def
          invariant_def fresh_def tracked_def bound_def)
  next
    case (Some h)
    then show ?thesis using inv None
      by (auto simp: authStateChanged_def showAuthInterface_def clearMessageListener_def
          unsubscribe_def invariant_def fresh_def tracked_def bound_def list_all_iff
          distinct_map_filter cleared_filter)
  qed
next
  case (Some u)
  assume inv: "invariant s"
  let ?s0 = "showChatInterface u (s\<lparr> currentUser := Some u \<rparr>)"
  have "invariant (loadMessages ?s0)"
  proof (rule invariant_loadMessages)
    show "fresh ?s0" using inv by (simp add: invariant_def fresh_def showChatInterface_def)
    show "filter (\<lambda>l. isMessageTopic (snd l)) (listeners ?s0) =
        (case messageListener ?s0 of None \<Rightarrow> []
         | Some h \<Rightarrow> [(h, ChannelMessages (currentChannel s))])"
      using inv by (simp add: invariant_def tracked_def showChatInterface_def)
    show "currentUser ?s0 = Some u" by (simp add: showChatInterface_def)
  qed
  then show ?thesis using Some by (simp add: authStateChanged_def invariant_loadOnlineUsers)
qed

lemma invariant_switchChannel: "invariant s \<Longrightarrow> invariant (switchChannel c s)"
proof (cases "currentUser s")
  case None
  assume "invariant s"
  then show ?thesis using None
    by (simp add: switchChannel_def openAuthModal_def invariant_def fresh_def tracked_def
        bound_def)
next
  case (Some u)
  assume inv: "invariant s"
  let ?s0 = "s\<lparr> currentChannel := c \<rparr>"
  have "invariant (loadMessages ?s0)"
  proof (rule invariant_loadMessages)
    show "fresh ?s0" using inv by (simp add: invariant_def fresh_def)
    show "filter (\<lambda>l. isMessageTopic (snd l)) (listeners ?s0) =
        (case messageListener ?s0 of None \<Rightarrow> []
         | Some h \<Rightarrow> [(h, ChannelMessages (currentChannel s))])"
      using inv by (simp add: invariant_def tracked_def)
    show "currentUser ?s0 = Some u" using Some by simp
  qed
  then show ?thesis using Some by (simp add: switchChannel_def)
qed

lemma invariant_step: "invariant s \<Longrightarrow> invariant (step e s)"
proof (cases e)
  case (AuthStateChanged usr)
  assume "invariant s"
  then show ?thesis using AuthStateChanged by (simp add: invariant_authStateChanged)
next
  case (MessagesSnapshot h docs)
  assume "invariant s"
  then show ?thesis using MessagesSnapshot
    by (auto simp: deliverMessages_def messagesCallback_eq elim!: invariant_frame [rotated -1]
        split: option.splits topic.splits)
next
  case (PresenceSnapshot h docs)
  assume inv: "invariant s"
  have "invariant (fst (presenceCallback docs s))"
    using presenceCallback_frame [of docs s] inv invariant_frame by blast
  then show ?thesis using PresenceSnapshot inv
    by (simp add: deliverPresence_def split: option.splits topic.splits)
next
  case (ClickChannel c)
  assume "invariant s"
  then show ?thesis using ClickChannel by (simp add: invariant_switchChannel)
next
  case (InputMessage t)
  assume "invariant s"
  then show ?thesis using InputMessage by (auto elim!: invariant_frame [rotated -1])
next
  case ClickSend
  assume "invariant s"
  then show ?thesis using ClickSend
    by (auto simp: sendMessage_def elim!: invariant_frame [rotated -1] split: option.splits)
next
  case (SendSettled ok)
  assume "invariant s"
  then show ?thesis using SendSettled
    by (auto simp: sendMessageSettled_def elim!: invariant_frame [rotated -1])
next
  case (InputSearch t)
  assume "invariant s"
  then show ?thesis using InputSearch
    by (auto simp: handleSearch_def handleSearchWith_def Let_def
        elim!: invariant_frame [rotated -1])
qed

lemma invariant_run: "invariant s \<Longrightarrow> invariant (run es s)"
  by (induction es arbitrary: s) (simp_all add: invariant_step)

lemma invariant_reachable: "invariant (run es initial)"
  by (rule invariant_run) (rule invariant_initial)

text \<open>In every run at most one listener on \<open>messages\<close> is registered.\<close>

lemma message_listener_unique: "length (messageHandles (run es initial)) \<le> 1"
proof -
  have "tracked (run es initial)"
    using invariant_reachable [of es] by (simp add: invariant_def)
  then show ?thesis
    by (simp add: tracked_def messageHandles_def split: option.splits)
qed

lemma presenceCallback_signed_in:
  "currentUser s = Some u \<Longrightarrow>
   presenceCallback docs s =
     (s\<lparr> peopleList :=
           (if docs = [] then [NoResults ''No users online'']
            else map personItem (filter (\<lambda>d. d_uid d \<noteq> u_uid u) docs)),
         onlineUsers := d_uid ` set docs - {u_uid u} \<rparr>, None)"
  by (simp add: presenceCallback_def presence_fold)

lemma signed_in_listener:
  assumes "invariant s" and "currentUser s = Some u"
  shows "\<exists>h. messageListener s = Some h
     \<and> filter (\<lambda>l. isMessageTopic (snd l)) (listeners s)
         = [(h, ChannelMessages (currentChannel s))]
     \<and> map_of (listeners s) h = Some (ChannelMessages (currentChannel s))
     \<and> h < nextHandle s"
proof -
  from assms obtain h where h: "messageListener s = Some h"
    by (auto simp: invariant_def bound_def)
  with assms(1) have f: "filter (\<lambda>l. isMessageTopic (snd l)) (listeners s)
         = [(h, ChannelMessages (currentChannel s))]"
    by (simp add: invariant_def tracked_def)
  then have "(h, ChannelMessages (currentChannel s))
      \<in> set (filter (\<lambda>l. isMessageTopic (snd l)) (listeners s))"
    by simp
  then have mem: "(h, ChannelMessages (currentChannel s)) \<in> set (listeners s)"
    by simp
  moreover from assms(1) have d: "distinct (map fst (listeners s))"
    by (simp add: invariant_def fresh_def)
  ultimately have "map_of (listeners s) h = Some (ChannelMessages (currentChannel s))"
    by simp
  moreover from assms(1) mem have "h < nextHandle s"
    by (fastforce simp: invariant_def fresh_def list_all_iff)
  ultimately show ?thesis using h f by simp
qed

lemma presence_kept:
  assumes "distinct (map fst ls)" and "(h, ChannelMessages c) \<in> set ls"
  shows "filter (\<lambda>l. fst l \<noteq> h \<and> isPresenceTopic (snd l)) ls
       = filter (\<lambda>l. isPresenceTopic (snd l)) ls"
proof -
  have "fst l \<noteq> h" if "l \<in> set ls" and "isPresenceTopic (snd l)" for l
  proof
    assume "fst l = h"
    then have "(h, snd l) \<in> set ls" using that(1) by (metis prod.collapse)
    with assms have "snd l = ChannelMessages c" by (meson eq_key_imp_eq_value)
    with that(2) show False by simp
  qed
  then show ?thesis by (intro filter_cong) auto
qed

lemma switchChannel_signed_in:
  assumes "currentUser s = Some u" and "messageListener s = Some h1"
  shows "switchChannel c2 s =
      s\<lparr> currentChannel := c2,
         listeners := filter (\<lambda>l. fst l \<noteq> h1) (listeners s)
                        @ [(nextHandle s, ChannelMessages c2)],
         nextHandle := Suc (nextHandle s),
         calls := calls s @ [Cancel h1, Subscribe (nextHandle s) (ChannelMessages c2)],
         messageListener := Some (nextHandle s) \<rparr>"
  using assms
  by (simp add: switchChannel_def loadMessages_def clearMessageListener_def unsubscribe_def
      onSnapshot_def Let_def)

section \<open>Strings: substring search and white space\<close>

lemma startsWith_iff: "startsWith s t \<longleftrightarrow> (\<exists>q. s = t @ q)"
  by (induction s t rule: startsWith.induct) auto

lemma includes_str_iff: "includes_str s t \<longleftrightarrow> (\<exists>p q. s = p @ t @ q)"
proof (induction s)
  case Nil
  show ?case by (simp add: startsWith_iff)
next
  case (Cons d s)
  show ?case
  proof
    assume "includes_str (d # s) t"
    then consider "startsWith (d # s) t" | "includes_str s t" by auto
    then show "\<exists>p q. d # s = p @ t @ q"
    proof cases
      case 1
      then obtain q where "d # s = t @ q" by (auto simp: startsWith_iff)
      then have "d # s = [] @ t @ q" by simp
      then show ?thesis by blast
    next
      case 2
      then obtain p q where "s = p @ t @ q" using Cons.IH by blast
      then have "d # s = (d # p) @ t @ q" by simp
      then show ?thesis by blast
    qed
  next
    assume "\<exists>p q. d # s = p @ t @ q"
    then obtain p q where pq: "d # s = p @ t @ q" by blast
    show "includes_str (d # s) t"
    proof (cases p)
      case Nil
      with pq have "startsWith (d # s) t" by (auto simp: startsWith_iff)
      then show ?thesis by simp
    next
      case (Cons e p')
      with pq have "s = p' @ t @ q" by simp
      then have "includes_str s t" using Cons.IH by blast
      then show ?thesis by simp
    qed
  qed
qed

lemma dropWhile_all_iff:
  "(\<forall>c\<in>set (dropWhile isWhiteSpace t). isWhiteSpace c) \<longleftrightarrow> (\<forall>c\<in>set t. isWhiteSpace c)"
  by (induction t) simp_all

lemma trim_empty_iff: "trim t = [] \<longleftrightarrow> list_all isWhiteSpace t"
  by (simp add: trim_def dropWhile_eq_Nil_conv list_all_iff dropWhile_all_iff)

lemma includes_str_contains: "includes_str t u = contains t u"
  by (simp add: includes_str_iff contains_def)

lemma searchMatches_trimmed:
  "searchMatches lower (trim (lower term)) m = trimmedMatches lower term m"
  by (simp add: searchMatches_def trimmedMatches_def includes_str_contains)

section \<open>Subscriptions\<close>

text \<open>
  Claim C1 (at most one registered listener per topic, so that one callback per topic
  observes a notification) fails for the presence topic. \<open>loadMessages\<close> keeps the function
  \<open>onSnapshot\<close> returns and calls it before it subscribes again; \<open>loadOnlineUsers\<close> drops
  it. After sign-in, sign-out and a second sign-in the message topic has the one listener 2,
  the presence topic has the two listeners 1 and 3, and a presence snapshot delivered to
  either of them runs the callback.
\<close>

theorem C1_presence_listeners_accumulate:
  "presenceHandles (run [AuthStateChanged (Some alice), AuthStateChanged None,
       AuthStateChanged (Some alice)] initial) = [1, 3]
   \<and> messageHandles (run [AuthStateChanged (Some alice), AuthStateChanged None,
       AuthStateChanged (Some alice)] initial) = [2]
   \<and> peopleList (fst (deliverPresence 1 [onlineDoc ''bob''] (run [AuthStateChanged (Some alice),
       AuthStateChanged None, AuthStateChanged (Some alice)] initial)))
      = [PersonItem ''img/good.png'' ''bob'' ''bob'' []]
   \<and> peopleList (fst (deliverPresence 3 [onlineDoc ''bob''] (run [AuthStateChanged (Some alice),
       AuthStateChanged None, AuthStateChanged (Some alice)] initial)))
      = [PersonItem ''img/good.png'' ''bob'' ''bob'' []]"
  by code_simp

text \<open>
  Claim C2, as stated, fails: after a sign-in, a message snapshot, a presence snapshot and the
  sign-out, the message log still holds the message, the presence set still holds the
  other user, and the presence listener is still registered.
\<close>

theorem C2_signout_counterexample:
  "allMessages (run [AuthStateChanged (Some alice), MessagesSnapshot 0 [msgAt ''bob'' ''hi'' 1],
       PresenceSnapshot 1 [onlineDoc ''bob''], AuthStateChanged None] initial)
     = [msgAt ''bob'' ''hi'' 1]
   \<and> onlineUsers (run [AuthStateChanged (Some alice), MessagesSnapshot 0 [msgAt ''bob'' ''hi'' 1],
       PresenceSnapshot 1 [onlineDoc ''bob''], AuthStateChanged None] initial)
     = {''bob''}
   \<and> presenceHandles (run [AuthStateChanged (Some alice),
       MessagesSnapshot 0 [msgAt ''bob'' ''hi'' 1],
       PresenceSnapshot 1 [onlineDoc ''bob''], AuthStateChanged None] initial)
     = [1]"
  by code_simp

text \<open>
  Claim C2, amended. On the sign-out transition of a run (a user was signed in), the client
  cancels the message listener it holds and nothing else on the store, forgets the user and
  the listener, so that no listener on \<open>messages\<close> stays registered, and shows the sign-in
  prompt in the message list; the cached message log and the presence set keep their
  content.
\<close>

theorem C2_signout_cancels_messages:
  assumes "s = run es initial" and "currentUser s = Some u"
  shows "\<exists>h. messageListener s = Some h
     \<and> calls (authStateChanged None s) = calls s @ [Cancel h]
     \<and> currentUser (authStateChanged None s) = None
     \<and> messageListener (authStateChanged None s) = None
     \<and> messageHandles (authStateChanged None s) = []
     \<and> messagesContainer (authStateChanged None s)
         = [NoResults ''Sign in to join the conversation!'']
     \<and> allMessages (authStateChanged None s) = allMessages s
     \<and> onlineUsers (authStateChanged None s) = onlineUsers s"
proof -
  have "invariant s" using assms(1) by (simp add: invariant_reachable)
  from signed_in_listener [OF this assms(2)] obtain h where
    h: "messageListener s = Some h" and
    f: "filter (\<lambda>l. isMessageTopic (snd l)) (listeners s)
         = [(h, ChannelMessages (currentChannel s))]"
    by blast
  have "authStateChanged None s =
      s\<lparr> currentUser := None, messageInputDisabled := True,
         messagesContainer := [NoResults ''Sign in to join the conversation!''],
         listeners := filter (\<lambda>l. fst l \<noteq> h) (listeners s),
         calls := calls s @ [Cancel h], messageListener := None \<rparr>"
    using h by (simp add: authStateChanged_def showAuthInterface_def clearMessageListener_def
        unsubscribe_def)
  then show ?thesis using h cleared_filter [OF f]
    by (simp add: messageHandles_def)
qed

theorem C2_signout_cancels_messages_witness:
  "currentUser (run [AuthStateChanged (Some alice)] initial) = Some alice
   \<and> (\<exists>h. messageListener (run [AuthStateChanged (Some alice)] initial) = Some h
     \<and> calls (authStateChanged None (run [AuthStateChanged (Some alice)] initial))
         = calls (run [AuthStateChanged (Some alice)] initial) @ [Cancel h]
     \<and> messageHandles (authStateChanged None (run [AuthStateChanged (Some alice)] initial)) = [])"
proof -
  have u: "currentUser (run [AuthStateChanged (Some alice)] initial) = Some alice"
    by code_simp
  show ?thesis
    using u C2_signout_cancels_messages [OF refl u] by blast
qed

text \<open>
  Claim C6, as stated, fails in its step (2): the switch itself does not reset the message
  log. After a snapshot for \<open>ideas\<close> and a switch to \<open>support\<close> the log still holds the
  message of \<open>ideas\<close>; the calls on the store are the cancellation and the new
  subscription, in that order.
\<close>

theorem C6_switch_counterexample:
  "allMessages (run [AuthStateChanged (Some alice), MessagesSnapshot 0 [msgAt ''bob'' ''hi'' 1],
       ClickChannel ''support''] initial) = [msgAt ''bob'' ''hi'' 1]
   \<and> currentChannel (run [AuthStateChanged (Some alice), MessagesSnapshot 0 [msgAt ''bob'' ''hi'' 1],
       ClickChannel ''support''] initial) = ''support''
   \<and> calls (run [AuthStateChanged (Some alice), MessagesSnapshot 0 [msgAt ''bob'' ''hi'' 1],
       ClickChannel ''support''] initial)
     = [Subscribe 0 (ChannelMessages ''ideas''), Subscribe 1 Presence, Cancel 0,
        Subscribe 2 (ChannelMessages ''support'')]"
  by code_simp

text \<open>
  Claim C6, amended. On a channel switch of a run with a user signed in, the client first
  cancels the message listener of the old channel and then subscribes for the new channel,
  which becomes the only listener on \<open>messages\<close>; the presence listeners and the presence set
  are untouched; the message log is not changed by the switch, and is replaced as a whole
  by the first snapshot delivered to the new listener; a snapshot that arrives for the
  cancelled listener changes nothing.
\<close>

theorem C6_switch_resubscribes:
  assumes "s = run es initial" and "currentUser s = Some u"
  shows "\<exists>h1. messageListener s = Some h1
     \<and> map_of (listeners s) h1 = Some (ChannelMessages (currentChannel s))
     \<and> calls (switchChannel c2 s)
         = calls s @ [Cancel h1, Subscribe (nextHandle s) (ChannelMessages c2)]
     \<and> messageListener (switchChannel c2 s) = Some (nextHandle s)
     \<and> map_of (listeners (switchChannel c2 s)) (nextHandle s) = Some (ChannelMessages c2)
     \<and> messageHandles (switchChannel c2 s) = [nextHandle s]
     \<and> presenceHandles (switchChannel c2 s) = presenceHandles s
     \<and> onlineUsers (switchChannel c2 s) = onlineUsers s
     \<and> allMessages (switchChannel c2 s) = allMessages s
     \<and> (\<forall>docs. deliverMessages h1 docs (switchChannel c2 s) = switchChannel c2 s)
     \<and> (\<forall>docs. allMessages (deliverMessages (nextHandle s) docs (switchChannel c2 s)) = docs)"
proof -
  have inv: "invariant s" using assms(1) by (simp add: invariant_reachable)
  from signed_in_listener [OF inv assms(2)] obtain h1 where
    h1: "messageListener s = Some h1" and
    f: "filter (\<lambda>l. isMessageTopic (snd l)) (listeners s)
         = [(h1, ChannelMessages (currentChannel s))]" and
    live: "map_of (listeners s) h1 = Some (ChannelMessages (currentChannel s))" and
    lt: "h1 < nextHandle s"
    by blast
  let ?rest = "filter (\<lambda>l. fst l \<noteq> h1) (listeners s)"
  note sw = switchChannel_signed_in [OF assms(2) h1, of c2]
  have d: "distinct (map fst (listeners s))"
    using inv by (simp add: invariant_def fresh_def)
  have mem: "(h1, ChannelMessages (currentChannel s)) \<in> set (listeners s)"
    using live by (rule map_of_SomeD)
  have new_free: "map_of ?rest (nextHandle s) = None"
    using inv by (fastforce simp: invariant_def fresh_def list_all_iff map_of_eq_None_iff)
  have old_gone: "map_of ?rest h1 = None"
    by (auto simp: map_of_eq_None_iff)
  have new_live: "map_of (listeners (switchChannel c2 s)) (nextHandle s)
      = Some (ChannelMessages c2)"
    using new_free by (simp add: sw map_add_def)
  have old_dead: "map_of (listeners (switchChannel c2 s)) h1 = None"
    using lt old_gone by (simp add: sw)
  have mh: "messageHandles (switchChannel c2 s) = [nextHandle s]"
    using cleared_filter [OF f] by (simp add: sw messageHandles_def)
  have ph: "presenceHandles (switchChannel c2 s) = presenceHandles s"
    using presence_kept [OF d mem] by (simp add: sw presenceHandles_def)
  have stale: "deliverMessages h1 docs (switchChannel c2 s) = switchChannel c2 s" for docs
    using old_dead by (simp add: deliverMessages_def)
  have first: "allMessages (deliverMessages (nextHandle s) docs (switchChannel c2 s)) = docs"
    for docs
    using new_live by (simp add: deliverMessages_def messagesCallback_eq)
  have "calls (switchChannel c2 s)
         = calls s @ [Cancel h1, Subscribe (nextHandle s) (ChannelMessages c2)]"
    and "messageListener (switchChannel c2 s) = Some (nextHandle s)"
    and "onlineUsers (switchChannel c2 s) = onlineUsers s"
    and "allMessages (switchChannel c2 s) = allMessages s"
    by (simp_all add: sw)
  with h1 live new_live mh ph stale first show ?thesis by blast
qed

theorem C6_switch_resubscribes_witness:
  "currentUser (run [AuthStateChanged (Some alice)] initial) = Some alice
   \<and> (\<exists>h1. messageListener (run [AuthStateChanged (Some alice)] initial) = Some h1
     \<and> calls (switchChannel ''support'' (run [AuthStateChanged (Some alice)] initial))
         = calls (run [AuthStateChanged (Some alice)] initial)
             @ [Cancel h1, Subscribe (nextHandle (run [AuthStateChanged (Some alice)] initial))
                  (ChannelMessages ''support'')]
     \<and> deliverMessages h1 [msgAt ''bob'' ''hi'' 1]
          (switchChannel ''support'' (run [AuthStateChanged (Some alice)] initial))
         = switchChannel ''support'' (run [AuthStateChanged (Some alice)] initial))"
proof -
  have u: "currentUser (run [AuthStateChanged (Some alice)] initial) = Some alice"
    by code_simp
  show ?thesis
    using u C6_switch_resubscribes [OF refl u, of "''support''"] by blast
qed

text \<open>
  Claim C10. With no user signed in, \<open>switchChannel\<close> only opens the authentication
  dialog: the current channel, the message listener, the registered listeners, the calls on
  the store, the message log and the presence set are unchanged.
\<close>

theorem C10_switchChannel_signed_out:
  assumes "currentUser s = None"
  shows "switchChannel c s = s\<lparr> authModalActive := True \<rparr>
    \<and> currentChannel (switchChannel c s) = currentChannel s
    \<and> messageListener (switchChannel c s) = messageListener s
    \<and> listeners (switchChannel c s) = listeners s
    \<and> calls (switchChannel c s) = calls s
    \<and> allMessages (switchChannel c s) = allMessages s
    \<and> onlineUsers (switchChannel c s) = onlineUsers s"
  using assms by (simp add: switchChannel_def openAuthModal_def)

theorem C10_switchChannel_signed_out_witness:
  "currentUser initial = None
   \<and> switchChannel ''support'' initial = initial\<lparr> authModalActive := True \<rparr>
   \<and> currentChannel (switchChannel ''support'' initial) = ''ideas''"
proof -
  have a: "currentUser initial = None" by (simp add: initial_def)
  have c: "currentChannel initial = ''ideas''" by (simp add: initial_def)
  show ?thesis
    using a c C10_switchChannel_signed_out [OF a, of "''support''"] by simp
qed

section \<open>The message log\<close>

text \<open>
  Claim C3, as stated, fails: the callback does not sort. A snapshot that holds the message
  of time 2 before the message of time 1 is stored and rendered in that order.
\<close>

theorem C3_delivery_order_counterexample:
  "allMessages (run [AuthStateChanged (Some alice),
       MessagesSnapshot 0 [msgAt ''bob'' ''second'' 2, msgAt ''bob'' ''first'' 1]] initial)
     = [msgAt ''bob'' ''second'' 2, msgAt ''bob'' ''first'' 1]
   \<and> messagesContainer (run [AuthStateChanged (Some alice),
       MessagesSnapshot 0 [msgAt ''bob'' ''second'' 2, msgAt ''bob'' ''first'' 1]] initial)
     = [MessageDiv ''message received'' ''img/good.png'' ''bob'' ''bob'' ''second'' (HourMinute 2),
        MessageDiv ''message received'' ''img/good.png'' ''bob'' ''bob'' ''first'' (HourMinute 1)]
   \<and> m_timestamp (msgAt ''bob'' ''first'' 1) = Some 1
   \<and> m_timestamp (msgAt ''bob'' ''second'' 2) = Some 2
   \<and> \<not> chronological (allMessages (run [AuthStateChanged (Some alice),
       MessagesSnapshot 0 [msgAt ''bob'' ''second'' 2, msgAt ''bob'' ''first'' 1]] initial))"
  by code_simp

text \<open>
  Claim C3, amended. The stored and the rendered sequence are the messages of the snapshot
  in the order the snapshot delivers them (the query asks the store for ascending
  timestamps); so the log is chronological exactly when the delivered snapshot is.
\<close>

theorem C3_log_keeps_delivery_order:
  assumes "map_of (listeners s) h = Some (ChannelMessages c)"
  shows "allMessages (deliverMessages h docs s) = docs
    \<and> messagesContainer (deliverMessages h docs s)
        = (if docs = [] then [NoResults ''No messages yet. Start the conversation!'']
           else map (messageDiv (currentUser s)) docs)
    \<and> chronological (allMessages (deliverMessages h docs s)) = chronological docs"
  using assms by (simp add: deliverMessages_def messagesCallback_eq)

theorem C3_log_keeps_delivery_order_witness:
  "map_of (listeners (run [AuthStateChanged (Some alice)] initial)) 0
     = Some (ChannelMessages ''ideas'')
   \<and> allMessages (deliverMessages 0 [msgAt ''bob'' ''first'' 1, msgAt ''bob'' ''second'' 2]
        (run [AuthStateChanged (Some alice)] initial))
     = [msgAt ''bob'' ''first'' 1, msgAt ''bob'' ''second'' 2]
   \<and> chronological (allMessages (deliverMessages 0
        [msgAt ''bob'' ''first'' 1, msgAt ''bob'' ''second'' 2]
        (run [AuthStateChanged (Some alice)] initial)))"
proof -
  have live: "map_of (listeners (run [AuthStateChanged (Some alice)] initial)) 0
     = Some (ChannelMessages ''ideas'')"
    by code_simp
  have c: "chronological [msgAt ''bob'' ''first'' 1, msgAt ''bob'' ''second'' 2]"
    by (simp add: chronological_def notAfter_def msgAt_def)
  show ?thesis
    using live c
      C3_log_keeps_delivery_order [OF live, of "[msgAt ''bob'' ''first'' 1, msgAt ''bob'' ''second'' 2]"]
    by simp
qed

text \<open>
  Claim C4. Applying the same full snapshot twice in succession gives the same state both
  times (nothing grows, nothing is reordered); after any snapshot the log is exactly the
  content of that snapshot, whatever it held before; and an empty snapshot after a
  non-empty one leaves the log empty.
\<close>

theorem C4_snapshot_replaces_log:
  assumes "map_of (listeners s) h = Some (ChannelMessages c)"
  shows "deliverMessages h docs (deliverMessages h docs s) = deliverMessages h docs s
    \<and> allMessages (deliverMessages h docs s) = docs
    \<and> allMessages (deliverMessages h docs' (deliverMessages h docs s)) = docs'
    \<and> allMessages (deliverMessages h [] (deliverMessages h docs s)) = []"
  using assms by (simp add: deliverMessages_def messagesCallback_eq)

theorem C4_snapshot_replaces_log_witness:
  "map_of (listeners (run [AuthStateChanged (Some alice)] initial)) 0
     = Some (ChannelMessages ''ideas'')
   \<and> allMessages (deliverMessages 0 [msgAt ''bob'' ''hi'' 1]
        (deliverMessages 0 [msgAt ''bob'' ''hi'' 1] (run [AuthStateChanged (Some alice)] initial)))
     = [msgAt ''bob'' ''hi'' 1]
   \<and> allMessages (deliverMessages 0 []
        (deliverMessages 0 [msgAt ''bob'' ''hi'' 1] (run [AuthStateChanged (Some alice)] initial)))
     = []"
proof -
  have live: "map_of (listeners (run [AuthStateChanged (Some alice)] initial)) 0
     = Some (ChannelMessages ''ideas'')"
    by code_simp
  show ?thesis
    using live C4_snapshot_replaces_log [OF live, of "[msgAt ''bob'' ''hi'' 1]" "[]"]
    by simp
qed

section \<open>Rendering and search\<close>

text \<open>
  Claim C5 (the text of a message is escaped on every presentation path) fails on the search
  path. \<open>displayMessage\<close> interpolates \<open>escapeHtml(message.text)\<close>; \<open>handleSearch\<close>
  interpolates \<open>message.text\<close> itself. For a message with the text \<open><b>x</b>\<close> the
  message list receives the escaped text and the search list the raw one.
\<close>

theorem C5_search_inserts_raw_text:
  "searchResults (run [AuthStateChanged (Some alice),
       MessagesSnapshot 0 [msgAt ''bob'' ''<b>x</b>'' 1], InputSearch ''x''] initial)
     = [SearchResultItem ''bob'' ''<b>x</b>'' (LocaleTime 1)]
   \<and> messagesContainer (run [AuthStateChanged (Some alice),
       MessagesSnapshot 0 [msgAt ''bob'' ''<b>x</b>'' 1], InputSearch ''x''] initial)
     = [MessageDiv ''message received'' ''img/good.png'' ''bob'' ''bob''
          ''&lt;b&gt;x&lt;/b&gt;'' (HourMinute 1)]
   \<and> escapeHtml ''<b>x</b>'' = ''&lt;b&gt;x&lt;/b&gt;''"
  by code_simp

text \<open>
  Claim C7, as stated, fails for a term with white space around it: the code searches for
  the trimmed term. For the input of a space followed by \<open>a\<close> the message with the text
  \<open>ba\<close> is listed, though neither its text nor its author contains a space, so that no
  message of the log matches the term as it is typed.
\<close>

theorem C7_search_counterexample:
  "searchResults (run [AuthStateChanged (Some alice), MessagesSnapshot 0 [msgAt ''bob'' ''ba'' 1],
       InputSearch '' a''] initial) = [SearchResultItem ''bob'' ''ba'' (LocaleTime 1)]
   \<and> filter (specMatches toLowerCase '' a'') [msgAt ''bob'' ''ba'' 1] = []"
proof -
  have "\<not> specMatches toLowerCase '' a'' (msgAt ''bob'' ''ba'' 1)"
    unfolding specMatches_def includes_str_contains [symmetric] by code_simp
  moreover have "searchResults (run [AuthStateChanged (Some alice),
       MessagesSnapshot 0 [msgAt ''bob'' ''ba'' 1], InputSearch '' a''] initial)
     = [SearchResultItem ''bob'' ''ba'' (LocaleTime 1)]"
    by code_simp
  ultimately show ?thesis by simp
qed

text \<open>
  Claim C7, amended. Whatever function the platform's \<open>toLowerCase\<close> is: a term whose
  lower-cased form is empty or all white space gives the "enter a term" element; otherwise
  the result is exactly the messages of the log whose lower-cased text or lower-cased
  author display name contains, as a substring, the lower-cased term without the white
  space at its ends, in the order of the log, and the "no messages found" element when
  there is none. Nothing but the search list changes.
\<close>

theorem C7_search_trimmed_term:
  "handleSearchWith lower s =
     s\<lparr> searchResults :=
          (if list_all isWhiteSpace (lower (searchModalInput s)) then
             [NoResults ''Enter a search term to find messages'']
           else if filter (trimmedMatches lower (searchModalInput s)) (allMessages s) = [] then
             [NoResults ''No messages found matching your search'']
           else
             map searchResultItem
               (filter (trimmedMatches lower (searchModalInput s)) (allMessages s))) \<rparr>"
proof -
  have m: "searchMatches lower (trim (lower (searchModalInput s)))
         = trimmedMatches lower (searchModalInput s)"
    by (rule ext) (rule searchMatches_trimmed)
  show ?thesis
    by (simp add: handleSearchWith_def Let_def m trim_empty_iff)
qed

theorem C7_search_trimmed_term_witness:
  "searchResults (handleSearch (initial\<lparr> searchModalInput := '' B '',
       allMessages := [msgAt ''bob'' ''hi'' 1, msgAt ''ann'' ''abc'' 2, msgAt ''ann'' ''xyz'' 3] \<rparr>))
     = [SearchResultItem ''bob'' ''hi'' (LocaleTime 1), SearchResultItem ''ann'' ''abc'' (LocaleTime 2)]
   \<and> searchResults (handleSearch (initial\<lparr> searchModalInput := ''  '' \<rparr>))
     = [NoResults ''Enter a search term to find messages'']"
proof -
  let ?log = "[msgAt ''bob'' ''hi'' 1, msgAt ''ann'' ''abc'' 2, msgAt ''ann'' ''xyz'' 3]"
  have w: "\<not> list_all isWhiteSpace (toLowerCase '' B '')"
    by code_simp
  have b: "list_all isWhiteSpace (toLowerCase ''  '')"
    by code_simp
  have f: "filter (trimmedMatches toLowerCase '' B '') ?log
      = [msgAt ''bob'' ''hi'' 1, msgAt ''ann'' ''abc'' 2]"
    unfolding trimmedMatches_def includes_str_contains [symmetric] by code_simp
  have r: "map searchResultItem [msgAt ''bob'' ''hi'' 1, msgAt ''ann'' ''abc'' 2]
      = [SearchResultItem ''bob'' ''hi'' (LocaleTime 1),
         SearchResultItem ''ann'' ''abc'' (LocaleTime 2)]"
    by code_simp
  show ?thesis
    using w b f r
      C7_search_trimmed_term [of toLowerCase
        "initial\<lparr> searchModalInput := '' B '', allMessages := ?log \<rparr>"]
      C7_search_trimmed_term [of toLowerCase "initial\<lparr> searchModalInput := ''  '' \<rparr>"]
    by (simp add: handleSearch_def)
qed

section \<open>Presence\<close>

text \<open>With a user signed in, a presence snapshot replaces the presence set by the user ids
  of the snapshot without the id of the signed-in user (and the people list by the items
  of those documents); the result does not depend on the previous set, and the callback
  does not throw.\<close>

lemma presence_snapshot_signed_in:
  assumes "map_of (listeners s) h = Some Presence" and "currentUser s = Some u"
  shows "deliverPresence h docs s =
      (s\<lparr> peopleList :=
            (if docs = [] then [NoResults ''No users online'']
             else map personItem (filter (\<lambda>d. d_uid d \<noteq> u_uid u) docs)),
          onlineUsers := d_uid ` set docs - {u_uid u} \<rparr>, None)
    \<and> onlineUsers (fst (deliverPresence h docs s)) = d_uid ` set docs - {u_uid u}
    \<and> u_uid u \<notin> onlineUsers (fst (deliverPresence h docs s))"
  using assms by (simp add: deliverPresence_def presenceCallback_signed_in)

text \<open>
  Claim C8 (for every presence snapshot the presence set is the snapshot without the local
  user) fails for a snapshot that arrives after a sign-out. The presence listener is never
  cancelled, so it is still registered when nobody is signed in; the callback reads
  \<open>this.currentUser.uid\<close> without the check for \<open>null\<close> that \<open>displayMessage\<close> makes, and
  throws at the first document. For the snapshot that holds the former user and \<open>bob\<close>
  the presence set and the people list are left empty, although \<open>bob\<close> is online.
\<close>

theorem C8_presence_after_signout_throws:
  "map_of (listeners (run [AuthStateChanged (Some alice), AuthStateChanged None] initial)) 1
     = Some Presence
   \<and> currentUser (run [AuthStateChanged (Some alice), AuthStateChanged None] initial) = None
   \<and> snd (deliverPresence 1 [onlineDoc ''u1'', onlineDoc ''bob'']
        (run [AuthStateChanged (Some alice), AuthStateChanged None] initial)) = Some TypeError
   \<and> onlineUsers (fst (deliverPresence 1 [onlineDoc ''u1'', onlineDoc ''bob'']
        (run [AuthStateChanged (Some alice), AuthStateChanged None] initial))) = {}
   \<and> peopleList (fst (deliverPresence 1 [onlineDoc ''u1'', onlineDoc ''bob'']
        (run [AuthStateChanged (Some alice), AuthStateChanged None] initial))) = []
   \<and> d_uid ` set [onlineDoc ''u1'', onlineDoc ''bob''] = {''u1'', ''bob''}"
  by code_simp

section \<open>Sending\<close>

text \<open>
  Claim C9. \<open>sendMessage\<close> changes nothing, and so makes no call on the store, when no
  user is signed in or the input is empty after trimming; otherwise it makes exactly one
  \<open>addDoc\<close> call, whose record has the trimmed input as text, the current channel as
  channel and the signed-in user as author.
\<close>

theorem C9_sendMessage_guard:
  "(currentUser s = None \<or> trim (messageInput s) = [] \<longrightarrow> sendMessage s = s)
   \<and> (\<forall>u. currentUser s = Some u \<and> trim (messageInput s) \<noteq> [] \<longrightarrow>
        (\<exists>m. sendMessage s = s\<lparr> calls := calls s @ [AddDoc m] \<rparr>
           \<and> m_text m = trim (messageInput s)
           \<and> m_channel m = currentChannel s
           \<and> m_userId m = u_uid u))"
  by (auto simp: sendMessage_def newMessage_def split: option.splits)

theorem C9_sendMessage_guard_witness:
  "sendMessage initial = initial
   \<and> sendMessage (run [AuthStateChanged (Some alice), InputMessage ''   ''] initial)
       = run [AuthStateChanged (Some alice), InputMessage ''   ''] initial
   \<and> (\<exists>m. sendMessage (run [AuthStateChanged (Some alice), InputMessage '' hi ''] initial)
         = (run [AuthStateChanged (Some alice), InputMessage '' hi ''] initial)
             \<lparr> calls := calls (run [AuthStateChanged (Some alice), InputMessage '' hi ''] initial)
                  @ [AddDoc m] \<rparr>
        \<and> m_text m = ''hi'' \<and> m_channel m = ''ideas'')"
proof -
  let ?s = "run [AuthStateChanged (Some alice), InputMessage '' hi ''] initial"
  let ?b = "run [AuthStateChanged (Some alice), InputMessage ''   ''] initial"
  have a: "currentUser initial = None" by (simp add: initial_def)
  have b: "trim (messageInput ?b) = []" by code_simp
  have u: "currentUser ?s = Some alice" by code_simp
  have t: "trim (messageInput ?s) = ''hi''" by code_simp
  have c: "currentChannel ?s = ''ideas''" by code_simp
  have "sendMessage initial = initial" using a C9_sendMessage_guard [of initial] by simp
  moreover have "sendMessage ?b = ?b" using b C9_sendMessage_guard [of ?b] by simp
  moreover have "\<exists>m. sendMessage ?s = ?s\<lparr> calls := calls ?s @ [AddDoc m] \<rparr>
        \<and> m_text m = ''hi'' \<and> m_channel m = ''ideas''"
    using u t c C9_sendMessage_guard [of ?s] by auto
  ultimately show ?thesis by simp
qed

end
